theory Spec2Isabelle
  imports Complex_Main "HOL-Library.Word" "HOL-Library.Monad_Syntax"
begin

section \<open>The vector renderer of vector_renderer.cpp\<close>

text \<open>
  The development embeds the functions of \<^verbatim>\<open>vector_renderer.cpp\<close>: the colour
  conversions of \<^verbatim>\<open>ColorF\<close>, \<^verbatim>\<open>blend\<close>, \<^verbatim>\<open>Gradient::getColorAt\<close> and the
  scanline fill \<^verbatim>\<open>drawPolygon\<close>.

  Numbers. A C++ \<^verbatim>\<open>float\<close> is modelled by the real number it denotes and an
  \<^verbatim>\<open>int\<close> by a mathematical integer: the model describes the executions in which
  every intermediate value is finite, is computed without rounding and stays in the
  range of its machine type. Two places go beyond that.
  \<^item> The quotient of the gradient parameter is an IEEE 754 value (type \<open>ieee\<close>):
    a zero divisor gives NaN or an infinity there, which \<^verbatim>\<open>clamp_float\<close> and
    \<^verbatim>\<open>getColorAt\<close> then receive, as in the program.
  \<^item> \<open>blend_fl\<close> is \<^verbatim>\<open>blend\<close> with the rounding of every operation explicit, and
    \<open>round32\<close> is the rounding of binary32.
  The two other divisions, the slope of an edge and the interpolation between two
  stops, return \<open>None\<close> on a zero divisor; \<open>edgeLoop_Some\<close> and \<open>getColorAt_Some\<close>
  show that this never happens.
\<close>

subsection \<open>Arithmetic helpers\<close>

type_synonym float = real

definition fdiv :: "float \<Rightarrow> float \<Rightarrow> float option" where
  "fdiv n d = (if d = 0 then None else Some (n / d))"

text \<open>The conversion \<^verbatim>\<open>(int)v\<close> of a float truncates toward zero.\<close>

definition to_int :: "float \<Rightarrow> int" where
  "to_int v = (if v < 0 then \<lceil>v\<rceil> else \<lfloor>v\<rfloor>)"

definition clamp_float :: "float \<Rightarrow> float \<Rightarrow> float \<Rightarrow> float" where
  "clamp_float val minVal maxVal =
     (if val < minVal then minVal
      else if val > maxVal then maxVal
      else val)"

text \<open>
  The value of a binary32 division \<open>n / d\<close> of two finite numbers under IEEE 754,
  where no exception traps: a finite quotient, or for a zero divisor NaN when the
  numerator is zero and an infinity otherwise. The model has no negative zero: the
  infinity has the sign of the numerator, as for the divisor \<open>+0\<close>.
\<close>

datatype ieee = Finite float | PlusInfinity | MinusInfinity | NaN

definition ieee_div :: "float \<Rightarrow> float \<Rightarrow> ieee" where
  "ieee_div n d =
     (if d \<noteq> 0 then Finite (n / d)
      else if n = 0 then NaN
      else if n > 0 then PlusInfinity
      else MinusInfinity)"

text \<open>
  \<^verbatim>\<open>clamp_float\<close> on an IEEE value and two finite bounds. Every comparison with
  NaN is false, so NaN is returned as it is; an infinity fails one of the two tests.
\<close>

definition clamp_float_ieee :: "ieee \<Rightarrow> float \<Rightarrow> float \<Rightarrow> ieee" where
  "clamp_float_ieee val minVal maxVal =
     (case val of
        Finite v \<Rightarrow> Finite (clamp_float v minVal maxVal)
      | MinusInfinity \<Rightarrow> Finite minVal
      | PlusInfinity \<Rightarrow> Finite maxVal
      | NaN \<Rightarrow> NaN)"

subsection \<open>Points and colours\<close>

record Point =
  pt_x :: float
  pt_y :: float

definition createRect :: "float \<Rightarrow> float \<Rightarrow> float \<Rightarrow> float \<Rightarrow> Point list" where
  "createRect x y w h =
     [\<lparr>pt_x = x, pt_y = y\<rparr>,
      \<lparr>pt_x = x + w, pt_y = y\<rparr>,
      \<lparr>pt_x = x + w, pt_y = y + h\<rparr>,
      \<lparr>pt_x = x, pt_y = y + h\<rparr>]"

text \<open>
  Modelled from the spec: \<^verbatim>\<open>RGBA\<close>, \<^verbatim>\<open>Byte\<close> and \<^verbatim>\<open>ColorImage\<close> are declared in
  \<^verbatim>\<open>image.h\<close>, which is not among the sources. The spec gives the pixel as four
  8-bit channels in the order r, g, b, a, and the image as a width, a height and a
  pixel read and written at \<open>(x, y)\<close>.
\<close>

type_synonym Byte = "8 word"

record RGBA =
  px_r :: Byte
  px_g :: Byte
  px_b :: Byte
  px_a :: Byte

record ColorImage =
  width :: int
  height :: int
  pixels :: "int \<times> int \<Rightarrow> RGBA"

definition Get :: "ColorImage \<Rightarrow> int \<Rightarrow> int \<Rightarrow> RGBA" where
  "Get img x y = pixels img (x, y)"

definition Set :: "ColorImage \<Rightarrow> int \<Rightarrow> int \<Rightarrow> RGBA \<Rightarrow> ColorImage" where
  "Set img x y c = img\<lparr>pixels := (pixels img)((x, y) := c)\<rparr>"

record ColorF =
  cf_r :: float
  cf_g :: float
  cf_b :: float
  cf_a :: float

text \<open>The cast \<^verbatim>\<open>(Byte)v\<close> of a float: truncation, then the low eight bits.\<close>

definition to_Byte :: "float \<Rightarrow> Byte" where
  "to_Byte v = word_of_int (to_int v)"

definition toRGBA :: "ColorF \<Rightarrow> RGBA" where
  "toRGBA c =
     \<lparr>px_r = to_Byte (clamp_float (cf_r c * 255) 0 255),
      px_g = to_Byte (clamp_float (cf_g c * 255) 0 255),
      px_b = to_Byte (clamp_float (cf_b c * 255) 0 255),
      px_a = to_Byte (clamp_float (cf_a c * 255) 0 255)\<rparr>"

definition fromRGBA :: "RGBA \<Rightarrow> ColorF" where
  "fromRGBA c =
     \<lparr>cf_r = real (unat (px_r c)) / 255,
      cf_g = real (unat (px_g c)) / 255,
      cf_b = real (unat (px_b c)) / 255,
      cf_a = real (unat (px_a c)) / 255\<rparr>"

subsection \<open>Blending\<close>

datatype BlendMode =
  BLEND_NORMAL | BLEND_MULTIPLY | BLEND_ADD | BLEND_DIFFERENCE | BLEND_OVERLAY

text \<open>The value of an enumerator where the code compares it with an \<^verbatim>\<open>int\<close>.\<close>

fun mode_int :: "BlendMode \<Rightarrow> int" where
  "mode_int BLEND_NORMAL = 0"
| "mode_int BLEND_MULTIPLY = 1"
| "mode_int BLEND_ADD = 2"
| "mode_int BLEND_DIFFERENCE = 3"
| "mode_int BLEND_OVERLAY = 4"

definition overlay_channel :: "float \<Rightarrow> float \<Rightarrow> float" where
  "overlay_channel s d =
     (if d < 0.5 then 2 * s * d else 1 - 2 * (1 - s) * (1 - d))"

definition blend :: "ColorF \<Rightarrow> ColorF \<Rightarrow> int \<Rightarrow> ColorF" where
  "blend src dest mode =
     (let alpha = cf_a src;
          invAlpha = 1 - alpha;
          (r, g, b) =
            (if mode = mode_int BLEND_NORMAL then
               (cf_r src, cf_g src, cf_b src)
             else if mode = mode_int BLEND_MULTIPLY then
               (cf_r src * cf_r dest, cf_g src * cf_g dest, cf_b src * cf_b dest)
             else if mode = mode_int BLEND_ADD then
               (clamp_float (cf_r src + cf_r dest) 0 1,
                clamp_float (cf_g src + cf_g dest) 0 1,
                clamp_float (cf_b src + cf_b dest) 0 1)
             else if mode = mode_int BLEND_DIFFERENCE then
               (\<bar>cf_r dest - cf_r src\<bar>, \<bar>cf_g dest - cf_g src\<bar>, \<bar>cf_b dest - cf_b src\<bar>)
             else if mode = mode_int BLEND_OVERLAY then
               (overlay_channel (cf_r src) (cf_r dest),
                overlay_channel (cf_g src) (cf_g dest),
                overlay_channel (cf_b src) (cf_b dest))
             else (cf_r dest, cf_g dest, cf_b dest))
      in \<lparr>cf_r = r * alpha + cf_r dest * invAlpha,
          cf_g = g * alpha + cf_g dest * invAlpha,
          cf_b = b * alpha + cf_b dest * invAlpha,
          cf_a = 1\<rparr>)"

text \<open>
  The per-mode intermediate value of a channel in the words of the specification,
  for comparison with \<open>blend\<close>.
\<close>

fun spec_intermediate :: "BlendMode \<Rightarrow> float \<Rightarrow> float \<Rightarrow> float" where
  "spec_intermediate BLEND_NORMAL s d = s"
| "spec_intermediate BLEND_MULTIPLY s d = s * d"
| "spec_intermediate BLEND_ADD s d = max 0 (min 1 (s + d))"
| "spec_intermediate BLEND_DIFFERENCE s d = \<bar>d - s\<bar>"
| "spec_intermediate BLEND_OVERLAY s d =
     (if d < 1 / 2 then 2 * s * d else 1 - 2 * (1 - s) * (1 - d))"

text \<open>
  Rounding. \<open>round_even\<close> rounds to the nearest integer, a tie to the even one.
  \<open>round32\<close> rounds a real number to the nearest binary32 value, a tie to the even
  significand: 24 significant bits, exponent at least \<open>- 126\<close>. A result beyond the
  largest binary32 value is not modelled.
\<close>

definition round_even :: "real \<Rightarrow> int" where
  "round_even v =
     (let f = \<lfloor>v\<rfloor>;
          r = v - real_of_int f
      in if r < 1 / 2 then f
         else if r > 1 / 2 then f + 1
         else if even f then f
         else f + 1)"

definition round32 :: "real \<Rightarrow> real" where
  "round32 v =
     (if v = 0 then 0
      else
        (let e = max \<lfloor>log 2 \<bar>v\<bar>\<rfloor> (- 126);
             u = 2 powi (e - 23)
         in real_of_int (round_even (v / u)) * u))"

text \<open>
  \<^verbatim>\<open>blend\<close> with the rounding explicit: \<open>fl\<close> is applied to the result of every
  addition, subtraction and multiplication of the source, in the order in which the
  source evaluates them (each operation rounded by itself, none fused). With the
  identity for \<open>fl\<close> this is \<open>blend\<close>; with \<open>round32\<close> it is the computation in
  binary32.
\<close>

definition overlay_channel_fl :: "(float \<Rightarrow> float) \<Rightarrow> float \<Rightarrow> float \<Rightarrow> float" where
  "overlay_channel_fl fl s d =
     (if d < 0.5 then fl (fl (2 * s) * d)
      else fl (1 - fl (fl (2 * fl (1 - s)) * fl (1 - d))))"

definition blend_fl :: "(float \<Rightarrow> float) \<Rightarrow> ColorF \<Rightarrow> ColorF \<Rightarrow> int \<Rightarrow> ColorF" where
  "blend_fl fl src dest mode =
     (let alpha = cf_a src;
          invAlpha = fl (1 - alpha);
          (r, g, b) =
            (if mode = mode_int BLEND_NORMAL then
               (cf_r src, cf_g src, cf_b src)
             else if mode = mode_int BLEND_MULTIPLY then
               (fl (cf_r src * cf_r dest), fl (cf_g src * cf_g dest), fl (cf_b src * cf_b dest))
             else if mode = mode_int BLEND_ADD then
               (clamp_float (fl (cf_r src + cf_r dest)) 0 1,
                clamp_float (fl (cf_g src + cf_g dest)) 0 1,
                clamp_float (fl (cf_b src + cf_b dest)) 0 1)
             else if mode = mode_int BLEND_DIFFERENCE then
               (\<bar>fl (cf_r dest - cf_r src)\<bar>, \<bar>fl (cf_g dest - cf_g src)\<bar>,
                \<bar>fl (cf_b dest - cf_b src)\<bar>)
             else if mode = mode_int BLEND_OVERLAY then
               (overlay_channel_fl fl (cf_r src) (cf_r dest),
                overlay_channel_fl fl (cf_g src) (cf_g dest),
                overlay_channel_fl fl (cf_b src) (cf_b dest))
             else (cf_r dest, cf_g dest, cf_b dest))
      in \<lparr>cf_r = fl (fl (r * alpha) + fl (cf_r dest * invAlpha)),
          cf_g = fl (fl (g * alpha) + fl (cf_g dest * invAlpha)),
          cf_b = fl (fl (b * alpha) + fl (cf_b dest * invAlpha)),
          cf_a = 1\<rparr>)"

subsection \<open>Gradients\<close>

record GradientStop =
  position :: float
  color :: ColorF

record Gradient =
  isRadial :: bool
  p1 :: Point
  p2 :: Point
  radius :: float
  stops :: "GradientStop list"

text \<open>
  The search loop of \<^verbatim>\<open>getColorAt\<close> walks the adjacent pairs
  \<open>(stops[i], stops[i + 1])\<close> from the front and interpolates in the first pair that
  encloses \<open>t\<close>; when no pair does, the colour of the last stop is returned.
\<close>

fun interpolate :: "float \<Rightarrow> GradientStop list \<Rightarrow> ColorF \<Rightarrow> ColorF option" where
  "interpolate t (s0 # s1 # rest) back =
     (if t \<ge> position s0 \<and> t \<le> position s1 then
        (let t0 = position s0; t1 = position s1 in
         do {
           f \<leftarrow> fdiv (t - t0) (t1 - t0);
           let c1 = color s0;
           let c2 = color s1;
           Some \<lparr>cf_r = cf_r c1 + (cf_r c2 - cf_r c1) * f,
                 cf_g = cf_g c1 + (cf_g c2 - cf_g c1) * f,
                 cf_b = cf_b c1 + (cf_b c2 - cf_b c1) * f,
                 cf_a = cf_a c1 + (cf_a c2 - cf_a c1) * f\<rparr>
         })
      else interpolate t (s1 # rest) back)"
| "interpolate t rest back = Some back"

definition getColorAt :: "Gradient \<Rightarrow> float \<Rightarrow> ColorF option" where
  "getColorAt grad t =
     (if stops grad = [] then Some \<lparr>cf_r = 0, cf_g = 0, cf_b = 0, cf_a = 1\<rparr>
      else if t \<le> position (hd (stops grad)) then Some (color (hd (stops grad)))
      else if t \<ge> position (last (stops grad)) then Some (color (last (stops grad)))
      else interpolate t (stops grad) (color (last (stops grad))))"

text \<open>
  \<^verbatim>\<open>getColorAt\<close> on an IEEE value. For NaN the two tests against the first and the
  last stop are false and no pair of the search loop encloses \<open>t\<close>, so the colour of
  the last stop is returned. Minus infinity passes the first test and plus infinity
  the second.
\<close>

definition getColorAt_ieee :: "Gradient \<Rightarrow> ieee \<Rightarrow> ColorF option" where
  "getColorAt_ieee grad t =
     (case t of
        Finite v \<Rightarrow> getColorAt grad v
      | MinusInfinity \<Rightarrow>
          (if stops grad = [] then Some \<lparr>cf_r = 0, cf_g = 0, cf_b = 0, cf_a = 1\<rparr>
           else Some (color (hd (stops grad))))
      | PlusInfinity \<Rightarrow>
          (if stops grad = [] then Some \<lparr>cf_r = 0, cf_g = 0, cf_b = 0, cf_a = 1\<rparr>
           else Some (color (last (stops grad))))
      | NaN \<Rightarrow>
          (if stops grad = [] then Some \<lparr>cf_r = 0, cf_g = 0, cf_b = 0, cf_a = 1\<rparr>
           else Some (color (last (stops grad)))))"

subsection \<open>The scanline fill\<close>

record Edge =
  yMin :: int
  yMax :: int
  edge_x :: float
  mInv :: float

text \<open>
  One iteration of the edge construction loop of \<^verbatim>\<open>drawPolygon\<close> at index \<open>i\<close>.
  The loop state is the edge list with \<^verbatim>\<open>globalMinY\<close> and \<^verbatim>\<open>globalMaxY\<close>. The
  slope is computed before the edge is tested against the image, as in the source.
\<close>

definition edgeStep ::
  "Point list \<Rightarrow> int \<Rightarrow> nat \<Rightarrow> Edge list \<times> int \<times> int \<Rightarrow> (Edge list \<times> int \<times> int) option" where
  "edgeStep vertices h i st =
     (let v1 = vertices ! i;
          v2 = vertices ! ((i + 1) mod length vertices)
      in if to_int (pt_y v1) = to_int (pt_y v2) then Some st
         else
           (let (q1, q2) = (if pt_y v1 > pt_y v2 then (v2, v1) else (v1, v2)) in
            do {
              m \<leftarrow> fdiv (pt_x q2 - pt_x q1) (pt_y q2 - pt_y q1);
              let e = \<lparr>yMin = to_int (pt_y q1), yMax = to_int (pt_y q2),
                       edge_x = pt_x q1, mInv = m\<rparr>;
              if yMax e \<le> 0 \<or> yMin e \<ge> h then Some st
              else
                (case st of (edges, globalMinY, globalMaxY) \<Rightarrow>
                   Some (edges @ [e],
                         if yMin e < globalMinY then yMin e else globalMinY,
                         if yMax e > globalMaxY then yMax e else globalMaxY))
            }))"

function edgeLoop ::
  "Point list \<Rightarrow> int \<Rightarrow> nat \<Rightarrow> Edge list \<times> int \<times> int \<Rightarrow> (Edge list \<times> int \<times> int) option" where
  "edgeLoop vertices h i st =
     (if i < length vertices then
        do {
          st' \<leftarrow> edgeStep vertices h i st;
          edgeLoop vertices h (i + 1) st'
        }
      else Some st)"
  by pat_completeness auto
termination
  by (relation "measure (\<lambda>(vertices, h, i, st). length vertices - i)") auto

declare edgeLoop.simps [simp del]

text \<open>The x intersections of the edges that cross scanline \<open>y\<close>, in edge order.\<close>

fun intersections :: "Edge list \<Rightarrow> int \<Rightarrow> float list" where
  "intersections [] y = []"
| "intersections (e # es) y =
     (if y \<ge> yMin e \<and> y < yMax e then
        (edge_x e + mInv e * real_of_int (y - yMin e)) # intersections es y
      else intersections es y)"

text \<open>
  The gradient parameter of pixel \<open>(x, y)\<close>, before it is clamped. Neither division
  is preceded by a test of its divisor.
\<close>

definition gradientParam :: "Gradient \<Rightarrow> int \<Rightarrow> int \<Rightarrow> ieee" where
  "gradientParam grad x y =
     (if isRadial grad then
        (let dx = real_of_int x - pt_x (p1 grad);
             dy = real_of_int y - pt_y (p1 grad);
             dist = sqrt (dx * dx + dy * dy)
         in ieee_div dist (radius grad))
      else
        (let dx = pt_x (p2 grad) - pt_x (p1 grad);
             dy = pt_y (p2 grad) - pt_y (p1 grad);
             lenSq = dx * dx + dy * dy;
             pdx = real_of_int x - pt_x (p1 grad);
             pdy = real_of_int y - pt_y (p1 grad)
         in ieee_div (pdx * dx + pdy * dy) lenSq))"

text \<open>
  The pixel loop of one span, \<^verbatim>\<open>for (int x = startX; x < endX; x++)\<close>. The gradient
  pointer is an optional value, \<open>None\<close> for \<^verbatim>\<open>nullptr\<close>; \<open>baseColor\<close> is the
  parameter \<^verbatim>\<open>color\<close>. With a gradient, the parameter \<open>t\<close> is the IEEE quotient of
  \<open>gradientParam\<close>, clamped and looked up as it is, NaN included.
\<close>

function pixelLoop ::
  "ColorF \<Rightarrow> Gradient option \<Rightarrow> int \<Rightarrow> int \<Rightarrow> int \<Rightarrow> int \<Rightarrow> ColorImage \<Rightarrow> ColorImage option" where
  "pixelLoop baseColor grad blendMode y x endX img =
     (if x < endX then
        do {
          drawColor \<leftarrow>
            (case grad of
               None \<Rightarrow> Some baseColor
             | Some g \<Rightarrow>
                 getColorAt_ieee g (clamp_float_ieee (gradientParam g x y) 0 1));
          let bgPixel = Get img x y;
          let bgColor = fromRGBA bgPixel;
          let finalColor = blend drawColor bgColor blendMode;
          pixelLoop baseColor grad blendMode y (x + 1) endX (Set img x y (toRGBA finalColor))
        }
      else Some img)"
  by pat_completeness auto
termination
  by (relation "measure (\<lambda>(baseColor, grad, blendMode, y, x, endX, img). nat (endX - x))") auto

declare pixelLoop.simps [simp del]

text \<open>
  The loop over the sorted intersections, two at a time; an unpaired last node ends
  the loop. The argument \<open>w\<close> is the local \<^verbatim>\<open>width\<close>.
\<close>

fun spanLoop ::
  "ColorF \<Rightarrow> Gradient option \<Rightarrow> int \<Rightarrow> int \<Rightarrow> int \<Rightarrow> float list \<Rightarrow> ColorImage \<Rightarrow> ColorImage option" where
  "spanLoop baseColor grad blendMode w y (n0 # n1 # nodes) img =
     (let startX = to_int n0;
          endX = to_int n1
      in if startX \<ge> w then spanLoop baseColor grad blendMode w y nodes img
         else if endX \<le> 0 then spanLoop baseColor grad blendMode w y nodes img
         else
           (let startX = (if startX < 0 then 0 else startX);
                endX = (if endX > w then w else endX)
            in do {
                 img' \<leftarrow> pixelLoop baseColor grad blendMode y startX endX img;
                 spanLoop baseColor grad blendMode w y nodes img'
               }))"
| "spanLoop baseColor grad blendMode w y nodes img = Some img"

function scanLoop ::
  "Edge list \<Rightarrow> ColorF \<Rightarrow> Gradient option \<Rightarrow> int \<Rightarrow> int \<Rightarrow> int \<Rightarrow> int \<Rightarrow> ColorImage \<Rightarrow>
   ColorImage option" where
  "scanLoop edges baseColor grad blendMode w y globalMaxY img =
     (if y < globalMaxY then
        do {
          img' \<leftarrow> spanLoop baseColor grad blendMode w y (sort (intersections edges y)) img;
          scanLoop edges baseColor grad blendMode w (y + 1) globalMaxY img'
        }
      else Some img)"
  by pat_completeness auto
termination
  by (relation "measure (\<lambda>(edges, baseColor, grad, blendMode, w, y, globalMaxY, img).
                            nat (globalMaxY - y))") auto

declare scanLoop.simps [simp del]

text \<open>The two statements that clamp the scanline range to the image.\<close>

definition clampY :: "int \<Rightarrow> int \<Rightarrow> int \<Rightarrow> int \<times> int" where
  "clampY h globalMinY globalMaxY =
     (if globalMinY < 0 then 0 else globalMinY,
      if globalMaxY > h then h else globalMaxY)"

definition drawPolygon ::
  "ColorImage \<Rightarrow> Point list \<Rightarrow> ColorF \<Rightarrow> Gradient option \<Rightarrow> int \<Rightarrow> ColorImage option" where
  "drawPolygon img vertices baseColor grad blendMode =
     (if length vertices < 3 then Some img
      else
        (let w = width img;
             h = height img
         in do {
              (edges, globalMinY, globalMaxY) \<leftarrow> edgeLoop vertices h 0 ([], h, 0);
              let (globalMinY, globalMaxY) = clampY h globalMinY globalMaxY;
              scanLoop edges baseColor grad blendMode w globalMinY globalMaxY img
            }))"

section \<open>Auxiliary definitions\<close>

text \<open>
  \<open>paint S k img\<close> is \<open>img\<close> with the pixels of \<open>S\<close> set to \<open>k\<close>: the effect of a fill
  whose written value does not depend on the destination.
\<close>

definition paint :: "(int \<times> int) set \<Rightarrow> RGBA \<Rightarrow> ColorImage \<Rightarrow> ColorImage" where
  "paint S k img = img\<lparr>pixels := (\<lambda>p. if p \<in> S then k else pixels img p)\<rparr>"

subsection \<open>Example data\<close>

definition white :: RGBA where
  "white = \<lparr>px_r = 255, px_g = 255, px_b = 255, px_a = 255\<rparr>"

definition red :: ColorF where
  "red = \<lparr>cf_r = 1, cf_g = 0, cf_b = 0, cf_a = 1\<rparr>"

definition green :: ColorF where
  "green = \<lparr>cf_r = 0, cf_g = 1, cf_b = 0, cf_a = 1\<rparr>"

definition blue :: ColorF where
  "blue = \<lparr>cf_r = 0, cf_g = 0, cf_b = 1, cf_a = 1\<rparr>"

definition black_pixel :: RGBA where
  "black_pixel = \<lparr>px_r = 0, px_g = 0, px_b = 0, px_a = 255\<rparr>"

text \<open>
  A source with the alpha \<^verbatim>\<open>0.8f\<close>, and the destination that \<^verbatim>\<open>fromRGBA\<close> gives in
  binary32 for the pixel \<open>(59, 113, 226, 255)\<close>.
\<close>

definition src_08 :: ColorF where
  "src_08 = \<lparr>cf_r = 1, cf_g = 1 / 2, cf_b = 0, cf_a = 13421773 / 16777216\<rparr>"

definition dest_59 :: ColorF where
  "dest_59 =
     \<lparr>cf_r = 15527149 / 67108864, cf_g = 14869219 / 33554432,
      cf_b = 14869219 / 16777216, cf_a = 1\<rparr>"

definition translucent :: ColorF where
  "translucent = \<lparr>cf_r = 1, cf_g = 1 / 2, cf_b = 0, cf_a = 4 / 5\<rparr>"

text \<open>The canvas of the demonstration scene, 800 by 600 and cleared to white.\<close>

definition canvas :: ColorImage where
  "canvas = \<lparr>width = 800, height = 600, pixels = (\<lambda>p. white)\<rparr>"

definition small :: ColorImage where
  "small = \<lparr>width = 2, height = 2, pixels = (\<lambda>p. white)\<rparr>"

definition corner :: "Point list" where
  "corner = [\<lparr>pt_x = 0, pt_y = 0\<rparr>, \<lparr>pt_x = 2, pt_y = 0\<rparr>, \<lparr>pt_x = 0, pt_y = 2\<rparr>]"

definition segment :: "Point list" where
  "segment = [\<lparr>pt_x = 0, pt_y = 0\<rparr>, \<lparr>pt_x = 2, pt_y = 2\<rparr>]"

text \<open>A triangle whose three vertices lie in scanline 1.\<close>

definition sliver :: "Point list" where
  "sliver = [\<lparr>pt_x = 0, pt_y = 6 / 5\<rparr>, \<lparr>pt_x = 2, pt_y = 17 / 10\<rparr>, \<lparr>pt_x = 1, pt_y = 3 / 2\<rparr>]"

definition two_stops :: Gradient where
  "two_stops =
     \<lparr>isRadial = False, p1 = \<lparr>pt_x = 0, pt_y = 0\<rparr>, p2 = \<lparr>pt_x = 1, pt_y = 0\<rparr>, radius = 0,
      stops = [\<lparr>position = 0, color = red\<rparr>, \<lparr>position = 1, color = blue\<rparr>]\<rparr>"

definition three_stops :: Gradient where
  "three_stops =
     \<lparr>isRadial = True, p1 = \<lparr>pt_x = 0, pt_y = 0\<rparr>, p2 = \<lparr>pt_x = 0, pt_y = 0\<rparr>, radius = 1,
      stops = [\<lparr>position = 0, color = red\<rparr>, \<lparr>position = 1 / 2, color = green\<rparr>,
               \<lparr>position = 1, color = blue\<rparr>]\<rparr>"

text \<open>Two stops at the same position; the list is sorted by position.\<close>

definition twin_stops :: Gradient where
  "twin_stops =
     \<lparr>isRadial = False, p1 = \<lparr>pt_x = 0, pt_y = 0\<rparr>, p2 = \<lparr>pt_x = 1, pt_y = 0\<rparr>, radius = 0,
      stops = [\<lparr>position = 1 / 2, color = red\<rparr>, \<lparr>position = 1 / 2, color = blue\<rparr>]\<rparr>"

definition zero_length :: Gradient where
  "zero_length =
     \<lparr>isRadial = False, p1 = \<lparr>pt_x = 0, pt_y = 0\<rparr>, p2 = \<lparr>pt_x = 0, pt_y = 0\<rparr>, radius = 1,
      stops = []\<rparr>"

definition zero_radius :: Gradient where
  "zero_radius =
     \<lparr>isRadial = True, p1 = \<lparr>pt_x = 0, pt_y = 0\<rparr>, p2 = \<lparr>pt_x = 1, pt_y = 0\<rparr>, radius = 0,
      stops = []\<rparr>"

section \<open>Colours and blending\<close>

lemma to_int_of_int [simp]: "to_int (real_of_int k) = k"
  by (simp add: to_int_def)

lemma to_int_of_int_add [simp]: "to_int (real_of_int a + real_of_int b) = a + b"
  using to_int_of_int [of "a + b"] by (simp del: to_int_of_int)

lemma to_Byte_unat:
  assumes "0 \<le> v" "v \<le> 255"
  shows "unat (to_Byte v) = nat \<lfloor>v\<rfloor>"
proof -
  have "0 \<le> \<lfloor>v\<rfloor>" "\<lfloor>v\<rfloor> < 256"
    using assms by (auto simp: floor_less_iff)
  then show ?thesis
    using assms
    by (simp add: to_Byte_def to_int_def unat_eq_nat_uint uint_word_of_int take_bit_int_eq_self)
qed

lemma channel_roundtrip:
  assumes "0 \<le> c" "c \<le> 1"
  shows "\<bar>real (unat (to_Byte (clamp_float (c * 255) 0 255))) / 255 - c\<bar> \<le> 1 / 255"
proof -
  have cl: "clamp_float (c * 255) 0 255 = c * 255"
    using assms by (simp add: clamp_float_def)
  have u: "unat (to_Byte (c * 255)) = nat \<lfloor>c * 255\<rfloor>"
    using assms by (intro to_Byte_unat) auto
  have nn: "0 \<le> \<lfloor>c * 255\<rfloor>"
    using assms by simp
  have "real_of_int \<lfloor>c * 255\<rfloor> \<le> c * 255" "c * 255 < real_of_int \<lfloor>c * 255\<rfloor> + 1"
    by linarith+
  then show ?thesis
    using nn by (simp add: cl u field_simps abs_le_iff)
qed

text \<open>
  Claim C8. For a colour whose four channels lie in \<open>[0, 1]\<close>, converting to the 8-bit
  pixel with \<open>toRGBA\<close> (multiply by 255, clamp to \<open>[0, 255]\<close>, truncate) and back with
  \<open>fromRGBA\<close> (divide by 255) changes each channel by at most \<open>1 / 255\<close>.
\<close>

theorem color_roundtrip:
  assumes "0 \<le> cf_r c \<and> cf_r c \<le> 1" "0 \<le> cf_g c \<and> cf_g c \<le> 1"
    "0 \<le> cf_b c \<and> cf_b c \<le> 1" "0 \<le> cf_a c \<and> cf_a c \<le> 1"
  shows "\<bar>cf_r (fromRGBA (toRGBA c)) - cf_r c\<bar> \<le> 1 / 255 \<and>
         \<bar>cf_g (fromRGBA (toRGBA c)) - cf_g c\<bar> \<le> 1 / 255 \<and>
         \<bar>cf_b (fromRGBA (toRGBA c)) - cf_b c\<bar> \<le> 1 / 255 \<and>
         \<bar>cf_a (fromRGBA (toRGBA c)) - cf_a c\<bar> \<le> 1 / 255"
  using assms channel_roundtrip [of "cf_r c"] channel_roundtrip [of "cf_g c"]
    channel_roundtrip [of "cf_b c"] channel_roundtrip [of "cf_a c"]
  by (simp add: fromRGBA_def toRGBA_def)

theorem color_roundtrip_witness:
  "(0 \<le> cf_r translucent \<and> cf_r translucent \<le> 1) \<and>
   (0 \<le> cf_g translucent \<and> cf_g translucent \<le> 1) \<and>
   (0 \<le> cf_b translucent \<and> cf_b translucent \<le> 1) \<and>
   (0 \<le> cf_a translucent \<and> cf_a translucent \<le> 1) \<and>
   \<bar>cf_r (fromRGBA (toRGBA translucent)) - cf_r translucent\<bar> \<le> 1 / 255 \<and>
   \<bar>cf_g (fromRGBA (toRGBA translucent)) - cf_g translucent\<bar> \<le> 1 / 255 \<and>
   \<bar>cf_b (fromRGBA (toRGBA translucent)) - cf_b translucent\<bar> \<le> 1 / 255 \<and>
   \<bar>cf_a (fromRGBA (toRGBA translucent)) - cf_a translucent\<bar> \<le> 1 / 255"
proof -
  have h: "0 \<le> cf_r translucent \<and> cf_r translucent \<le> 1"
    "0 \<le> cf_g translucent \<and> cf_g translucent \<le> 1"
    "0 \<le> cf_b translucent \<and> cf_b translucent \<le> 1"
    "0 \<le> cf_a translucent \<and> cf_a translucent \<le> 1"
    by (simp_all add: translucent_def)
  show ?thesis
    using h color_roundtrip [OF h] by blast
qed

text \<open>
  Claim C2. For each of the five blend modes, the r, g and b channels of
  \<open>blend src dest mode\<close> are \<open>m * src.a + dest * (1 - src.a)\<close>, where \<open>m\<close> is the
  intermediate value of the mode as the specification words it, and the alpha channel
  is 1.
\<close>

theorem blend_matches_spec:
  "cf_r (blend src dest (mode_int m)) =
     spec_intermediate m (cf_r src) (cf_r dest) * cf_a src + cf_r dest * (1 - cf_a src) \<and>
   cf_g (blend src dest (mode_int m)) =
     spec_intermediate m (cf_g src) (cf_g dest) * cf_a src + cf_g dest * (1 - cf_a src) \<and>
   cf_b (blend src dest (mode_int m)) =
     spec_intermediate m (cf_b src) (cf_b dest) * cf_a src + cf_b dest * (1 - cf_a src) \<and>
   cf_a (blend src dest (mode_int m)) = 1"
  by (cases m)
    (simp_all add: blend_def clamp_float_def overlay_channel_def Let_def max_def min_def)

lemma blend_fl_exact: "blend_fl (\<lambda>v. v) src dest mode = blend src dest mode"
  by (simp add: blend_fl_def blend_def overlay_channel_fl_def overlay_channel_def Let_def)

lemma round32_at:
  assumes "2 powi e \<le> \<bar>v\<bar>" "\<bar>v\<bar> < 2 powi (e + 1)" "- 126 \<le> e"
  shows "round32 v = real_of_int (round_even (v / 2 powi (e - 23))) * 2 powi (e - 23)"
proof -
  have pos: "0 < \<bar>v\<bar>"
    using assms(1) by (smt (verit) zero_less_power_int)
  have a: "(2::real) powr real_of_int e \<le> \<bar>v\<bar>"
    using assms(1) by (simp add: powr_real_of_int')
  have b: "\<bar>v\<bar> < (2::real) powr real_of_int (e + 1)"
    using assms(2) powr_real_of_int' [of "2::real" "e + 1"] by simp
  have "\<lfloor>log 2 \<bar>v\<bar>\<rfloor> = e"
    using a b pos floor_log_eq_powr_iff [of "\<bar>v\<bar>" 2 e] by simp
  then show ?thesis
    using pos assms(3) by (simp add: round32_def Let_def max_def)
qed

lemma round32_0: "round32 0 = 0"
  by (simp add: round32_def)

lemma round32_1: "round32 1 = 1"
  by (subst round32_at [of 0]) (simp_all add: round_even_def power_int_minus Let_def)

lemma unknown_mode_channels:
  assumes "mode \<notin> {mode_int BLEND_NORMAL, mode_int BLEND_MULTIPLY, mode_int BLEND_ADD,
                    mode_int BLEND_DIFFERENCE, mode_int BLEND_OVERLAY}"
  shows "blend_fl fl src dest mode =
           \<lparr>cf_r = fl (fl (cf_r dest * cf_a src) + fl (cf_r dest * fl (1 - cf_a src))),
            cf_g = fl (fl (cf_g dest * cf_a src) + fl (cf_g dest * fl (1 - cf_a src))),
            cf_b = fl (fl (cf_b dest * cf_a src) + fl (cf_b dest * fl (1 - cf_a src))),
            cf_a = 1\<rparr>"
proof -
  have "mode \<noteq> mode_int BLEND_NORMAL" "mode \<noteq> mode_int BLEND_MULTIPLY"
    "mode \<noteq> mode_int BLEND_ADD" "mode \<noteq> mode_int BLEND_DIFFERENCE"
    "mode \<noteq> mode_int BLEND_OVERLAY"
    using assms by blast+
  then show ?thesis
    by (simp add: blend_fl_def Let_def)
qed

text \<open>
  Claim C9, as the code has it. The mode of \<open>blend\<close> is an integer. For a mode that
  is none of the five enumerators no branch is taken and the intermediate value
  stays the destination's: each colour channel is \<open>dest * src.a + dest * (1 - src.a)\<close>
  with every operation rounded, the channels of the source are not used, and alpha
  is 1. The mode does not fall through to Normal. The result is the destination
  with alpha 1 in exact arithmetic, and under any rounding that keeps 0, 1 and the
  destination channels when \<open>src.a\<close> is 0 or 1.
\<close>

theorem blend_unknown_mode:
  assumes "mode \<notin> {mode_int BLEND_NORMAL, mode_int BLEND_MULTIPLY, mode_int BLEND_ADD,
                    mode_int BLEND_DIFFERENCE, mode_int BLEND_OVERLAY}"
  shows "blend_fl fl src dest mode =
           \<lparr>cf_r = fl (fl (cf_r dest * cf_a src) + fl (cf_r dest * fl (1 - cf_a src))),
            cf_g = fl (fl (cf_g dest * cf_a src) + fl (cf_g dest * fl (1 - cf_a src))),
            cf_b = fl (fl (cf_b dest * cf_a src) + fl (cf_b dest * fl (1 - cf_a src))),
            cf_a = 1\<rparr> \<and>
         blend_fl (\<lambda>v. v) src dest mode =
           \<lparr>cf_r = cf_r dest, cf_g = cf_g dest, cf_b = cf_b dest, cf_a = 1\<rparr> \<and>
         ((cf_a src = 0 \<or> cf_a src = 1) \<and> fl 0 = 0 \<and> fl 1 = 1 \<and>
          fl (cf_r dest) = cf_r dest \<and> fl (cf_g dest) = cf_g dest \<and>
          fl (cf_b dest) = cf_b dest \<longrightarrow>
          blend_fl fl src dest mode =
            \<lparr>cf_r = cf_r dest, cf_g = cf_g dest, cf_b = cf_b dest, cf_a = 1\<rparr>)"
proof (intro conjI impI)
  show "blend_fl fl src dest mode =
           \<lparr>cf_r = fl (fl (cf_r dest * cf_a src) + fl (cf_r dest * fl (1 - cf_a src))),
            cf_g = fl (fl (cf_g dest * cf_a src) + fl (cf_g dest * fl (1 - cf_a src))),
            cf_b = fl (fl (cf_b dest * cf_a src) + fl (cf_b dest * fl (1 - cf_a src))),
            cf_a = 1\<rparr>"
    using unknown_mode_channels [OF assms] .
next
  show "blend_fl (\<lambda>v. v) src dest mode =
          \<lparr>cf_r = cf_r dest, cf_g = cf_g dest, cf_b = cf_b dest, cf_a = 1\<rparr>"
    by (simp add: unknown_mode_channels [OF assms] algebra_simps)
next
  assume "(cf_a src = 0 \<or> cf_a src = 1) \<and> fl 0 = 0 \<and> fl 1 = 1 \<and>
          fl (cf_r dest) = cf_r dest \<and> fl (cf_g dest) = cf_g dest \<and>
          fl (cf_b dest) = cf_b dest"
  then show "blend_fl fl src dest mode =
          \<lparr>cf_r = cf_r dest, cf_g = cf_g dest, cf_b = cf_b dest, cf_a = 1\<rparr>"
    by (auto simp: unknown_mode_channels [OF assms])
qed

theorem blend_unknown_mode_witness:
  "7 \<notin> {mode_int BLEND_NORMAL, mode_int BLEND_MULTIPLY, mode_int BLEND_ADD,
          mode_int BLEND_DIFFERENCE, mode_int BLEND_OVERLAY} \<and>
   ((cf_a red = 0 \<or> cf_a red = 1) \<and> round32 0 = 0 \<and> round32 1 = 1 \<and>
    round32 (cf_r green) = cf_r green \<and> round32 (cf_g green) = cf_g green \<and>
    round32 (cf_b green) = cf_b green) \<and>
   blend_fl round32 red green 7 = \<lparr>cf_r = 0, cf_g = 1, cf_b = 0, cf_a = 1\<rparr>"
proof -
  have h: "7 \<notin> {mode_int BLEND_NORMAL, mode_int BLEND_MULTIPLY, mode_int BLEND_ADD,
                 mode_int BLEND_DIFFERENCE, mode_int BLEND_OVERLAY}"
    by simp
  have k: "(cf_a red = 0 \<or> cf_a red = 1) \<and> round32 0 = 0 \<and> round32 1 = 1 \<and>
           round32 (cf_r green) = cf_r green \<and> round32 (cf_g green) = cf_g green \<and>
           round32 (cf_b green) = cf_b green"
    by (simp add: red_def green_def round32_0 round32_1)
  have "blend_fl round32 red green 7 =
          \<lparr>cf_r = cf_r green, cf_g = cf_g green, cf_b = cf_b green, cf_a = 1\<rparr>"
    using k blend_unknown_mode [OF h, of round32 red green] by blast
  then show ?thesis
    using h k by (simp add: green_def)
qed

text \<open>
  The claim C9 as stated fails in binary32: the sum \<open>dest * a + dest * (1 - a)\<close> is
  rounded four times. With the alpha \<^verbatim>\<open>0.8f\<close> and the destination channel
  \<^verbatim>\<open>59 / 255.0f\<close> the result is \<open>3881787 / 2^24\<close>, one unit in the last place below
  the destination, and the stored byte changes from 59 to 58.
\<close>

theorem blend_unknown_mode_counterexample:
  "7 \<notin> {mode_int BLEND_NORMAL, mode_int BLEND_MULTIPLY, mode_int BLEND_ADD,
          mode_int BLEND_DIFFERENCE, mode_int BLEND_OVERLAY} \<and>
   cf_a src_08 = round32 (4 / 5) \<and>
   cf_r dest_59 = round32 (59 / 255) \<and>
   cf_r (blend_fl round32 src_08 dest_59 7) = 3881787 / 16777216 \<and>
   cf_r (blend_fl round32 src_08 dest_59 7) \<noteq> cf_r dest_59 \<and>
   px_r (toRGBA dest_59) = 59 \<and>
   px_r (toRGBA (blend_fl round32 src_08 dest_59 7)) = 58"
proof -
  note r32 = round_even_def power_int_minus Let_def
  have a: "round32 (4 / 5) = 13421773 / 16777216"
    by (subst round32_at [of "- 1"]) (simp_all add: r32)
  have d: "round32 (59 / 255) = 15527149 / 67108864"
    by (subst round32_at [of "- 3"]) (simp_all add: r32)
  have e0: "cf_r (blend_fl round32 src_08 dest_59 7) =
            round32 (round32 (15527149 / 67108864 * (13421773 / 16777216)) +
                     round32 (15527149 / 67108864 * round32 (1 - 13421773 / 16777216)))"
    by (simp add: blend_fl_def src_08_def dest_59_def Let_def)
  have ia: "round32 (1 - 13421773 / 16777216) = 3355443 / 16777216"
    by (subst round32_at [of "- 3"]) (simp_all add: r32)
  have p: "round32 (15527149 / 67108864 * (13421773 / 16777216)) = 12421719 / 67108864"
    by (subst round32_at [of "- 3"]) (simp_all add: r32)
  have q: "round32 (15527149 / 67108864 * (3355443 / 16777216)) = 6210859 / 134217728"
    by (subst round32_at [of "- 5"]) (simp_all add: r32)
  have r: "round32 (12421719 / 67108864 + 6210859 / 134217728) = 3881787 / 16777216"
    by (subst round32_at [of "- 3"]) (simp_all add: r32)
  have res: "cf_r (blend_fl round32 src_08 dest_59 7) = 3881787 / 16777216"
    by (simp only: e0 ia p q r)
  have b59: "px_r (toRGBA dest_59) = 59"
    by (simp add: toRGBA_def dest_59_def clamp_float_def to_Byte_def to_int_def)
  have b58: "px_r (toRGBA (blend_fl round32 src_08 dest_59 7)) = 58"
    by (simp add: toRGBA_def res clamp_float_def to_Byte_def to_int_def)
  have ne: "cf_r (blend_fl round32 src_08 dest_59 7) \<noteq> cf_r dest_59"
    unfolding res by (simp add: dest_59_def)
  show ?thesis
    using a d res ne b59 b58 by (simp add: src_08_def dest_59_def)
qed

section \<open>Gradient lookup\<close>

lemma interpolate_at_stop:
  "sorted_wrt (<) (map position (s0 # rest)) \<Longrightarrow> s \<in> set rest \<Longrightarrow>
   interpolate (position s) (s0 # rest) back = Some (color s)"
proof (induction rest arbitrary: s0)
  case Nil
  then show ?case by simp
next
  case (Cons s1 rest)
  show ?case
  proof (cases "s = s1")
    case True
    have "position s0 < position s1"
      using Cons.prems(1) by simp
    then show ?thesis
      using True by (simp add: fdiv_def Let_def)
  next
    case False
    then have m: "s \<in> set rest"
      using Cons.prems(2) by simp
    have "position s1 < position s"
      using Cons.prems(1) m by auto
    moreover have "sorted_wrt (<) (map position (s1 # rest))"
      using Cons.prems(1) by simp
    ultimately show ?thesis
      using Cons.IH [OF _ m, of s1] by simp
  qed
qed

lemma interpolate_Some: "position s0 < t \<Longrightarrow> interpolate t (s0 # rest) back \<noteq> None"
proof (induction rest arbitrary: s0)
  case Nil
  then show ?case by simp
next
  case (Cons s1 rest)
  show ?case
  proof (cases "t \<le> position s1")
    case True
    then show ?thesis
      using Cons.prems by (simp add: fdiv_def Let_def)
  next
    case False
    then show ?thesis
      using Cons.IH [of s1] by simp
  qed
qed

lemma getColorAt_Some: "getColorAt g t \<noteq> None"
proof (cases "stops g")
  case Nil
  then show ?thesis by (simp add: getColorAt_def)
next
  case (Cons s0 rest)
  then show ?thesis
    using interpolate_Some [of s0 t rest] by (simp add: getColorAt_def)
qed

text \<open>
  Claim C3, as the code has it. With no stops the lookup gives opaque black. With
  stops sorted by position, a \<open>t\<close> at or below the smallest position gives the colour
  of the first stop, and a \<open>t\<close> at or above the largest position gives the colour of
  the last stop when \<open>t\<close> is also above the position of the first stop: the test
  against the first stop comes first and wins when both hold.
\<close>

theorem getColorAt_saturation:
  "(stops g = [] \<longrightarrow> getColorAt g t = Some \<lparr>cf_r = 0, cf_g = 0, cf_b = 0, cf_a = 1\<rparr>) \<and>
   (stops g \<noteq> [] \<and> sorted (map position (stops g)) \<and>
    t \<le> Min (position ` set (stops g)) \<longrightarrow>
      getColorAt g t = Some (color (hd (stops g)))) \<and>
   (stops g \<noteq> [] \<and> sorted (map position (stops g)) \<and>
    Max (position ` set (stops g)) \<le> t \<and> position (hd (stops g)) < t \<longrightarrow>
      getColorAt g t = Some (color (last (stops g))))"
proof (intro conjI impI)
  assume "stops g = []"
  then show "getColorAt g t = Some \<lparr>cf_r = 0, cf_g = 0, cf_b = 0, cf_a = 1\<rparr>"
    by (simp add: getColorAt_def)
next
  assume a: "stops g \<noteq> [] \<and> sorted (map position (stops g)) \<and>
             t \<le> Min (position ` set (stops g))"
  then have "Min (position ` set (stops g)) \<le> position (hd (stops g))"
    by (intro Min_le) auto
  then have "t \<le> position (hd (stops g))"
    using a by linarith
  then show "getColorAt g t = Some (color (hd (stops g)))"
    using a by (simp add: getColorAt_def)
next
  assume a: "stops g \<noteq> [] \<and> sorted (map position (stops g)) \<and>
             Max (position ` set (stops g)) \<le> t \<and> position (hd (stops g)) < t"
  then have "position (last (stops g)) \<le> Max (position ` set (stops g))"
    by (intro Max_ge) auto
  then have "position (last (stops g)) \<le> t" "\<not> t \<le> position (hd (stops g))"
    using a by linarith+
  then show "getColorAt g t = Some (color (last (stops g)))"
    using a by (simp add: getColorAt_def)
qed

theorem getColorAt_saturation_witness:
  "stops zero_length = [] \<and>
   getColorAt zero_length 3 = Some \<lparr>cf_r = 0, cf_g = 0, cf_b = 0, cf_a = 1\<rparr> \<and>
   (stops two_stops \<noteq> [] \<and> sorted (map position (stops two_stops)) \<and>
    - 1 \<le> Min (position ` set (stops two_stops))) \<and>
   getColorAt two_stops (- 1) = Some red \<and>
   (Max (position ` set (stops two_stops)) \<le> 2 \<and> position (hd (stops two_stops)) < 2) \<and>
   getColorAt two_stops 2 = Some blue"
  using getColorAt_saturation [of zero_length 3] getColorAt_saturation [of two_stops "- 1"]
    getColorAt_saturation [of two_stops 2]
  by (simp add: two_stops_def zero_length_def)

text \<open>
  The claim C3 as stated fails where all stops share one position: with two stops at
  \<open>1 / 2\<close>, red then blue, the lookup at \<open>1 / 2\<close> is at or above the largest position
  and returns red, the first stop's colour, not blue.
\<close>

theorem getColorAt_last_counterexample:
  "stops twin_stops \<noteq> [] \<and> sorted (map position (stops twin_stops)) \<and>
   Max (position ` set (stops twin_stops)) \<le> 1 / 2 \<and>
   getColorAt twin_stops (1 / 2) = Some red \<and>
   getColorAt twin_stops (1 / 2) \<noteq> Some (color (last (stops twin_stops)))"
  by (simp add: twin_stops_def getColorAt_def red_def blue_def)

text \<open>
  Claim C7. With stops at strictly increasing positions, the lookup at the position
  of a stop returns the colour of that stop, for the first, the last and every inner
  stop; in the model the equality is exact.
\<close>

theorem getColorAt_stop:
  assumes ne: "stops g \<noteq> []"
    and srt: "sorted_wrt (<) (map position (stops g))"
    and mem: "s \<in> set (stops g)"
  shows "getColorAt g (position s) = Some (color s)"
proof -
  obtain s0 rest where st: "stops g = s0 # rest"
    using ne by (cases "stops g") auto
  show ?thesis
  proof (cases "s = s0")
    case True
    then show ?thesis by (simp add: getColorAt_def st)
  next
    case False
    then have m: "s \<in> set rest"
      using mem st by simp
    then have lt: "position s0 < position s"
      using srt st by auto
    have nfirst: "\<not> position s \<le> position (hd (stops g))"
      using lt st by simp
    show ?thesis
    proof (cases "position s \<ge> position (last (stops g))")
      case True
      have "last (stops g) = s"
      proof (rule ccontr)
        assume d: "last (stops g) \<noteq> s"
        obtain i where i: "i < length (stops g)" "stops g ! i = s"
          using mem by (auto simp: in_set_conv_nth)
        have "i \<noteq> length (stops g) - 1"
          using d i ne by (auto simp: last_conv_nth)
        then have "i < length (stops g) - 1"
          using i by simp
        then have "map position (stops g) ! i < map position (stops g) ! (length (stops g) - 1)"
          using srt i ne by (intro sorted_wrt_nth_less [OF srt]) auto
        then have "position s < position (last (stops g))"
          using i ne by (simp add: last_conv_nth)
        then show False
          using True by simp
      qed
      then show ?thesis
        using nfirst True ne by (simp add: getColorAt_def)
    next
      case False
      moreover have "interpolate (position s) (stops g) (color (last (stops g))) = Some (color s)"
        using interpolate_at_stop [of s0 rest s] srt st m by simp
      ultimately show ?thesis
        using nfirst ne by (simp add: getColorAt_def)
    qed
  qed
qed

theorem getColorAt_stop_witness:
  "stops three_stops \<noteq> [] \<and> sorted_wrt (<) (map position (stops three_stops)) \<and>
   \<lparr>position = 1 / 2, color = green\<rparr> \<in> set (stops three_stops) \<and>
   getColorAt three_stops (1 / 2) = Some green"
proof -
  have h: "stops three_stops \<noteq> []" "sorted_wrt (<) (map position (stops three_stops))"
    "\<lparr>position = 1 / 2, color = green\<rparr> \<in> set (stops three_stops)"
    by (simp_all add: three_stops_def)
  show ?thesis
    using h getColorAt_stop [OF h] by simp
qed

section \<open>Properties of the scanline fill\<close>

subsection \<open>Edge construction\<close>

lemma edgeStep_Some: "edgeStep vs h i st \<noteq> None"
  by (cases st) (auto simp: edgeStep_def Let_def fdiv_def split: prod.splits)

lemma edgeLoop_Some: "edgeLoop vs h i st \<noteq> None"
proof (induction vs h i st rule: edgeLoop.induct)
  case (1 vertices h i st)
  show ?case
  proof (cases "i < length vertices")
    case True
    obtain st1 where s: "edgeStep vertices h i st = Some st1"
      using edgeStep_Some by blast
    show ?thesis
      using True s "1.IH" [OF True s] by (simp add: edgeLoop.simps [of vertices h i st])
  next
    case False
    then show ?thesis
      by (simp add: edgeLoop.simps [of vertices h i st])
  qed
qed

lemma edgeStep_flat:
  "to_int (pt_y (vs ! i)) = to_int (pt_y (vs ! ((i + 1) mod length vs))) \<Longrightarrow>
   edgeStep vs h i st = Some st"
  by (simp add: edgeStep_def Let_def)

lemma edgeLoop_flat:
  assumes "\<forall>j<length vs. to_int (pt_y (vs ! j)) = to_int (pt_y (vs ! ((j + 1) mod length vs)))"
  shows "edgeLoop vs h i st = Some st"
proof (induction "length vs - i" arbitrary: i)
  case 0
  then show ?case
    by (simp add: edgeLoop.simps [of vs h i st])
next
  case (Suc n)
  then have lt: "i < length vs" and n: "n = length vs - (i + 1)"
    by auto
  show ?case
    using lt assms Suc.hyps(1) [OF n]
    by (simp add: edgeLoop.simps [of vs h i st] edgeStep_flat)
qed

lemma scanLoop_empty: "maxY \<le> y \<Longrightarrow> scanLoop edges c g m w y maxY img = Some img"
  by (simp add: scanLoop.simps [of edges c g m w y maxY img])

text \<open>
  Claim C5. With fewer than three vertices \<open>drawPolygon\<close> returns at once: the image
  is the one it was given, for every colour, gradient and blend mode.
\<close>

theorem drawPolygon_degenerate:
  assumes "length vs < 3"
  shows "drawPolygon img vs c grad m = Some img"
  using assms by (simp add: drawPolygon_def)

theorem drawPolygon_degenerate_witness:
  "length segment < 3 \<and>
   drawPolygon small segment red (Some zero_length) (mode_int BLEND_OVERLAY) = Some small"
proof -
  have h: "length segment < 3"
    by (simp add: segment_def)
  show ?thesis
    using h drawPolygon_degenerate [OF h] by simp
qed

text \<open>
  Claim C10. When every consecutive pair of vertices, the closing pair included, has
  the same truncated y, every iteration of the edge loop skips: the edge list stays
  empty and the bounds stay \<open>(height, 0)\<close>, which clamp to an empty scanline range,
  and the image is returned as it was.
\<close>

theorem drawPolygon_flat:
  assumes "3 \<le> length vs"
    and "\<forall>i<length vs. to_int (pt_y (vs ! i)) = to_int (pt_y (vs ! ((i + 1) mod length vs)))"
  shows "edgeLoop vs (height img) 0 ([], height img, 0) = Some ([], height img, 0) \<and>
         (case clampY (height img) (height img) 0 of (lo, hi) \<Rightarrow> hi \<le> lo) \<and>
         drawPolygon img vs c grad m = Some img"
  using assms(1) edgeLoop_flat [OF assms(2)]
  by (simp add: drawPolygon_def Let_def clampY_def scanLoop_empty)

lemma sliver_y: "v \<in> set sliver \<Longrightarrow> to_int (pt_y v) = 1"
  by (auto simp: sliver_def to_int_def)

theorem drawPolygon_flat_witness:
  "3 \<le> length sliver \<and>
   to_int (pt_y (sliver ! 0)) = to_int (pt_y (sliver ! 1)) \<and>
   to_int (pt_y (sliver ! 1)) = to_int (pt_y (sliver ! 2)) \<and>
   to_int (pt_y (sliver ! 2)) = to_int (pt_y (sliver ! 0)) \<and>
   edgeLoop sliver (height small) 0 ([], height small, 0) = Some ([], height small, 0) \<and>
   drawPolygon small sliver red None (mode_int BLEND_NORMAL) = Some small"
proof -
  have l: "length sliver = 3"
    by (simp add: sliver_def)
  have h1: "3 \<le> length sliver"
    by (simp add: l)
  have h2: "\<forall>i<length sliver.
      to_int (pt_y (sliver ! i)) = to_int (pt_y (sliver ! ((i + 1) mod length sliver)))"
  proof (intro allI impI)
    fix i
    assume "i < length sliver"
    then have "sliver ! i \<in> set sliver" "sliver ! ((i + 1) mod length sliver) \<in> set sliver"
      by (simp_all add: l)
    then show "to_int (pt_y (sliver ! i)) = to_int (pt_y (sliver ! ((i + 1) mod length sliver)))"
      by (simp only: sliver_y)
  qed
  have h3: "to_int (pt_y (sliver ! 0)) = 1" "to_int (pt_y (sliver ! 1)) = 1"
    "to_int (pt_y (sliver ! 2)) = 1"
    by (simp_all add: sliver_def to_int_def)
  show ?thesis
    using h1 h3 drawPolygon_flat [OF h1 h2, of small red None "mode_int BLEND_NORMAL"] by simp
qed

subsection \<open>Fills that do not read the destination\<close>

lemma paint_empty [simp]: "paint {} k img = img"
  by (simp add: paint_def)

lemma paint_paint: "paint S k (paint T k img) = paint (S \<union> T) k img"
  by (auto simp: paint_def fun_eq_iff)

lemma paint_dims [simp]:
  "width (paint S k img) = width img" "height (paint S k img) = height img"
  by (simp_all add: paint_def)

lemma Set_paint: "Set img x y k = paint {(x, y)} k img"
  by (auto simp: Set_def paint_def fun_eq_iff)

lemma blend_opaque_normal: "cf_a c = 1 \<Longrightarrow> blend c d (mode_int BLEND_NORMAL) = c"
  by (simp add: blend_def)

lemma pixelLoop_solid:
  assumes op: "cf_a c = 1"
  shows "pixelLoop c None (mode_int BLEND_NORMAL) y x endX img =
         Some (paint {(px, py). py = y \<and> x \<le> px \<and> px < endX} (toRGBA c) img)"
proof (induction "nat (endX - x)" arbitrary: x img)
  case 0
  then have ge: "\<not> x < endX"
    by simp
  then have e: "{(px, py). py = y \<and> x \<le> px \<and> px < endX} = {}"
    by auto
  show ?case
    unfolding e using ge by (simp add: pixelLoop.simps [of c None _ y x endX img])
next
  case (Suc n)
  then have lt: "x < endX" and n: "n = nat (endX - (x + 1))"
    by auto
  have u: "insert (x, y) {(px, py). py = y \<and> x + 1 \<le> px \<and> px < endX} =
           {(px, py). py = y \<and> x \<le> px \<and> px < endX}"
    using lt by auto
  have "pixelLoop c None (mode_int BLEND_NORMAL) y x endX img =
        pixelLoop c None (mode_int BLEND_NORMAL) y (x + 1) endX (paint {(x, y)} (toRGBA c) img)"
    using lt blend_opaque_normal [OF op]
    by (simp add: pixelLoop.simps [of c None _ y x endX img] Set_paint del: mode_int.simps)
  also have "\<dots> = Some (paint {(px, py). py = y \<and> x + 1 \<le> px \<and> px < endX} (toRGBA c)
                          (paint {(x, y)} (toRGBA c) img))"
    using Suc.hyps(1) [OF n] .
  finally show ?case
    by (simp add: paint_paint u)
qed

lemma spanLoop_solid:
  assumes op: "cf_a c = 1"
  shows "\<exists>S. \<forall>img. spanLoop c None (mode_int BLEND_NORMAL) w y nodes img =
                      Some (paint S (toRGBA c) img)"
proof (induction nodes rule: induct_list012)
  case 1
  have "\<forall>img. spanLoop c None (mode_int BLEND_NORMAL) w y [] img =
              Some (paint {} (toRGBA c) img)"
    by simp
  then show ?case by blast
next
  case (2 n0)
  have "\<forall>img. spanLoop c None (mode_int BLEND_NORMAL) w y [n0] img =
              Some (paint {} (toRGBA c) img)"
    by simp
  then show ?case by blast
next
  case (3 n0 n1 nodes)
  then obtain S where S: "\<And>img. spanLoop c None (mode_int BLEND_NORMAL) w y nodes img =
                                  Some (paint S (toRGBA c) img)"
    by blast
  show ?case
  proof (cases "to_int n0 \<ge> w \<or> to_int n1 \<le> 0")
    case True
    then have "\<forall>img. spanLoop c None (mode_int BLEND_NORMAL) w y (n0 # n1 # nodes) img =
                     Some (paint S (toRGBA c) img)"
      using S by (auto simp: Let_def simp del: mode_int.simps)
    then show ?thesis by blast
  next
    case False
    define a where "a = (if to_int n0 < 0 then 0 else to_int n0)"
    define b where "b = (if to_int n1 > w then w else to_int n1)"
    have "\<forall>img. spanLoop c None (mode_int BLEND_NORMAL) w y (n0 # n1 # nodes) img =
            Some (paint (S \<union> {(px, py). py = y \<and> a \<le> px \<and> px < b}) (toRGBA c) img)"
      using False S pixelLoop_solid [OF op]
      by (simp add: Let_def a_def b_def paint_paint del: mode_int.simps)
    then show ?thesis by blast
  qed
qed

lemma scanLoop_solid:
  assumes op: "cf_a c = 1"
  shows "\<exists>S. \<forall>img. scanLoop edges c None (mode_int BLEND_NORMAL) w y maxY img =
                      Some (paint S (toRGBA c) img)"
proof (induction "nat (maxY - y)" arbitrary: y)
  case 0
  then have "\<forall>img. scanLoop edges c None (mode_int BLEND_NORMAL) w y maxY img =
                   Some (paint {} (toRGBA c) img)"
    by (simp add: scanLoop_empty)
  then show ?case by blast
next
  case (Suc n)
  then have lt: "y < maxY" and n: "n = nat (maxY - (y + 1))"
    by auto
  obtain S1 where S1:
    "\<And>img. spanLoop c None (mode_int BLEND_NORMAL) w y (sort (intersections edges y)) img =
            Some (paint S1 (toRGBA c) img)"
    using spanLoop_solid [OF op] by blast
  obtain S2 where S2:
    "\<And>img. scanLoop edges c None (mode_int BLEND_NORMAL) w (y + 1) maxY img =
            Some (paint S2 (toRGBA c) img)"
    using Suc.hyps(1) [OF n] by blast
  have "\<forall>img. scanLoop edges c None (mode_int BLEND_NORMAL) w y maxY img =
              Some (paint (S2 \<union> S1) (toRGBA c) img)"
    using lt S1 S2
    by (simp add: scanLoop.simps [of edges c None _ w y maxY] paint_paint del: mode_int.simps)
  then show ?case by blast
qed

lemma drawPolygon_solid:
  assumes op: "cf_a c = 1"
  shows "\<exists>S. \<forall>img. width img = W \<and> height img = H \<longrightarrow>
            drawPolygon img vs c None (mode_int BLEND_NORMAL) = Some (paint S (toRGBA c) img)"
proof (cases "length vs < 3")
  case True
  then have "\<forall>img. width img = W \<and> height img = H \<longrightarrow>
            drawPolygon img vs c None (mode_int BLEND_NORMAL) = Some (paint {} (toRGBA c) img)"
    by (simp add: drawPolygon_def)
  then show ?thesis by blast
next
  case False
  obtain edges a b where e: "edgeLoop vs H 0 ([], H, 0) = Some (edges, a, b)"
    using edgeLoop_Some [of vs H 0 "([], H, 0)"] by (cases "edgeLoop vs H 0 ([], H, 0)") auto
  obtain lo hi where r: "clampY H a b = (lo, hi)"
    by (cases "clampY H a b") auto
  obtain S where S: "\<And>img. scanLoop edges c None (mode_int BLEND_NORMAL) W lo hi img =
                            Some (paint S (toRGBA c) img)"
    using scanLoop_solid [OF op] by blast
  have "\<forall>img. width img = W \<and> height img = H \<longrightarrow>
            drawPolygon img vs c None (mode_int BLEND_NORMAL) = Some (paint S (toRGBA c) img)"
    using False e r S by (simp add: drawPolygon_def Let_def del: mode_int.simps)
  then show ?thesis by blast
qed

text \<open>
  Claim C6. With an opaque colour, no gradient and the Normal mode, drawing a
  polygon returns an image, and drawing the same polygon again on that image
  returns the same image.
\<close>

theorem drawPolygon_idempotent:
  assumes op: "cf_a c = 1"
  shows "\<exists>once. drawPolygon img vs c None (mode_int BLEND_NORMAL) = Some once \<and>
                 drawPolygon once vs c None (mode_int BLEND_NORMAL) = Some once"
proof -
  obtain S where S: "\<And>i. width i = width img \<and> height i = height img \<Longrightarrow>
      drawPolygon i vs c None (mode_int BLEND_NORMAL) = Some (paint S (toRGBA c) i)"
    using drawPolygon_solid [OF op, of "width img" "height img" vs] by blast
  have "drawPolygon img vs c None (mode_int BLEND_NORMAL) = Some (paint S (toRGBA c) img)"
    using S by simp
  moreover have "drawPolygon (paint S (toRGBA c) img) vs c None (mode_int BLEND_NORMAL) =
                 Some (paint S (toRGBA c) img)"
    using S [of "paint S (toRGBA c) img"] by (simp add: paint_paint)
  ultimately show ?thesis by blast
qed

theorem drawPolygon_idempotent_witness:
  "cf_a red = 1 \<and>
   (\<exists>once. drawPolygon small corner red None (mode_int BLEND_NORMAL) = Some once \<and>
           drawPolygon once corner red None (mode_int BLEND_NORMAL) = Some once)"
proof -
  have h: "cf_a red = 1"
    by (simp add: red_def)
  show ?thesis
    using h drawPolygon_idempotent [OF h, of small corner] by blast
qed

subsection \<open>Axis-aligned rectangles\<close>

lemma rect_edges:
  assumes "0 \<le> y" "0 < h" "y + h \<le> H"
  shows "edgeLoop (createRect (real_of_int x) (real_of_int y) (real_of_int w) (real_of_int h))
           H 0 ([], H, 0) =
         Some ([\<lparr>yMin = y, yMax = y + h, edge_x = real_of_int x + real_of_int w, mInv = 0\<rparr>,
                \<lparr>yMin = y, yMax = y + h, edge_x = real_of_int x, mInv = 0\<rparr>], y, y + h)"
  using assms
  by (simp add: createRect_def edgeLoop.simps edgeStep_def fdiv_def Let_def)

lemma rect_scan:
  assumes op: "cf_a c = 1" and "0 \<le> x" "0 < w" "x + w \<le> W" "y0 \<le> yy"
  shows "scanLoop [\<lparr>yMin = y0, yMax = y1, edge_x = real_of_int x + real_of_int w, mInv = 0\<rparr>,
                   \<lparr>yMin = y0, yMax = y1, edge_x = real_of_int x, mInv = 0\<rparr>]
           c None (mode_int BLEND_NORMAL) W yy y1 img =
         Some (paint {(px, py). x \<le> px \<and> px < x + w \<and> yy \<le> py \<and> py < y1} (toRGBA c) img)"
  using assms(5)
proof (induction "nat (y1 - yy)" arbitrary: yy img)
  case 0
  then have ge: "y1 \<le> yy"
    by simp
  then have e: "{(px, py). x \<le> px \<and> px < x + w \<and> yy \<le> py \<and> py < y1} = {}"
    by auto
  show ?case
    unfolding e using ge by (simp add: scanLoop_empty)
next
  case (Suc n)
  then have lt: "yy < y1" and n: "n = nat (y1 - (yy + 1))" and le: "y0 \<le> yy + 1"
    by auto
  let ?edges = "[\<lparr>yMin = y0, yMax = y1, edge_x = real_of_int x + real_of_int w, mInv = 0\<rparr>,
                 \<lparr>yMin = y0, yMax = y1, edge_x = real_of_int x, mInv = 0\<rparr>]"
  have nodes: "sort (intersections ?edges yy) = [real_of_int x, real_of_int x + real_of_int w]"
    using lt Suc.prems assms(3) by simp
  have row: "spanLoop c None (mode_int BLEND_NORMAL) W yy
               [real_of_int x, real_of_int x + real_of_int w] img =
             Some (paint {(px, py). py = yy \<and> x \<le> px \<and> px < x + w} (toRGBA c) img)"
    using assms(2-4) pixelLoop_solid [OF op] by (simp add: Let_def del: mode_int.simps)
  have u: "{(px, py). x \<le> px \<and> px < x + w \<and> yy + 1 \<le> py \<and> py < y1} \<union>
           {(px, py). py = yy \<and> x \<le> px \<and> px < x + w} =
           {(px, py). x \<le> px \<and> px < x + w \<and> yy \<le> py \<and> py < y1}"
    using lt by auto
  have "scanLoop ?edges c None (mode_int BLEND_NORMAL) W yy y1 img =
        scanLoop ?edges c None (mode_int BLEND_NORMAL) W (yy + 1) y1
          (paint {(px, py). py = yy \<and> x \<le> px \<and> px < x + w} (toRGBA c) img)"
    using lt
    by (simp add: scanLoop.simps [of ?edges c None _ W yy y1 img] nodes row
             del: mode_int.simps intersections.simps spanLoop.simps)
  also have "\<dots> = Some (paint {(px, py). x \<le> px \<and> px < x + w \<and> yy + 1 \<le> py \<and> py < y1}
                     (toRGBA c)
                     (paint {(px, py). py = yy \<and> x \<le> px \<and> px < x + w} (toRGBA c) img))"
    using Suc.hyps(1) [OF n le] .
  finally show ?case
    by (simp only: paint_paint u)
qed

text \<open>
  Claim C1. For a rectangle with integer corners inside the image, given as the four
  vertices of \<open>createRect\<close>, with positive width and height, \<open>drawPolygon\<close> with an
  opaque colour, no gradient and the Normal mode returns the image in which the
  pixels of the half-open box \<open>[x, x + w) \<times> [y, y + h)\<close> hold the colour and every
  other pixel is as before.
\<close>

theorem rectangle_coverage:
  assumes "cf_a c = 1" "0 \<le> x" "0 \<le> y" "0 < w" "0 < h"
    "x + w \<le> width img" "y + h \<le> height img"
  shows "drawPolygon img
           (createRect (real_of_int x) (real_of_int y) (real_of_int w) (real_of_int h))
           c None (mode_int BLEND_NORMAL) =
         Some (img\<lparr>pixels :=
                 (\<lambda>(px, py). if x \<le> px \<and> px < x + w \<and> y \<le> py \<and> py < y + h
                              then toRGBA c else pixels img (px, py))\<rparr>)"
proof -
  have p: "paint {(px, py). x \<le> px \<and> px < x + w \<and> y \<le> py \<and> py < y + h} (toRGBA c) img =
           img\<lparr>pixels :=
                 (\<lambda>(px, py). if x \<le> px \<and> px < x + w \<and> y \<le> py \<and> py < y + h
                              then toRGBA c else pixels img (px, py))\<rparr>"
    by (auto simp: paint_def fun_eq_iff)
  have l: "length (createRect (real_of_int x) (real_of_int y) (real_of_int w) (real_of_int h)) = 4"
    by (simp add: createRect_def)
  show ?thesis
    using assms(3,5,7) rect_scan [OF assms(1,2,4,6), of y y "y + h" img]
    by (simp add: drawPolygon_def l Let_def clampY_def rect_edges [OF assms(3,5,7)] p
             del: mode_int.simps)
qed

text \<open>
  The first scene of the demonstration: the rectangle \<open>(50, 50, 200, 150)\<close> in red
  on the white canvas. Pixel \<open>(100, 100)\<close> becomes red, pixel \<open>(49, 49)\<close> and pixel
  \<open>(250, 200)\<close> stay white.
\<close>

theorem rectangle_coverage_witness:
  "(cf_a red = 1 \<and> (0::int) \<le> 50 \<and> (0::int) < 200 \<and> (0::int) < 150 \<and>
    50 + 200 \<le> width canvas \<and> 50 + 150 \<le> height canvas) \<and>
   (\<exists>img. drawPolygon canvas (createRect 50 50 200 150) red None (mode_int BLEND_NORMAL) = Some img \<and>
      pixels img (100, 100) = \<lparr>px_r = 255, px_g = 0, px_b = 0, px_a = 255\<rparr> \<and>
      pixels img (49, 49) = white \<and>
      pixels img (250, 200) = white)"
proof -
  have h: "cf_a red = 1" "(0::int) \<le> 50" "(0::int) \<le> 50" "(0::int) < 200" "(0::int) < 150"
    "50 + 200 \<le> width canvas" "50 + 150 \<le> height canvas"
    by (simp_all add: red_def canvas_def)
  have k: "toRGBA red = \<lparr>px_r = 255, px_g = 0, px_b = 0, px_a = 255\<rparr>"
    by (simp add: toRGBA_def red_def clamp_float_def to_Byte_def to_int_def)
  show ?thesis
    using h rectangle_coverage [OF h] by (simp add: k canvas_def)
qed

subsection \<open>Divisions\<close>

lemma getColorAt_ieee_Some: "getColorAt_ieee g t \<noteq> None"
  using getColorAt_Some [of g] by (cases t) (simp_all add: getColorAt_ieee_def)

lemma gradientParam_zero_length:
  assumes "\<not> isRadial g" "p1 g = p2 g"
  shows "gradientParam g x y = NaN"
  using assms by (simp add: gradientParam_def ieee_div_def Let_def)

lemma gradientParam_zero_radius:
  assumes "isRadial g" "radius g = 0"
  shows "gradientParam g x y \<in> {PlusInfinity, MinusInfinity, NaN}"
  using assms by (simp add: gradientParam_def ieee_div_def Let_def)

lemma pixelLoop_Some: "pixelLoop c grad m y x endX img \<noteq> None"
proof (induction "nat (endX - x)" arbitrary: x img)
  case 0
  then show ?case
    by (simp add: pixelLoop.simps [of c grad m y x endX img])
next
  case (Suc n)
  then have lt: "x < endX" and n: "n = nat (endX - (x + 1))"
    by auto
  obtain dc where dc:
    "(case grad of
        None \<Rightarrow> Some c
      | Some g \<Rightarrow> getColorAt_ieee g (clamp_float_ieee (gradientParam g x y) 0 1)) = Some dc"
  proof (cases grad)
    case None
    then show ?thesis
      using that by simp
  next
    case (Some g)
    then show ?thesis
      using that getColorAt_ieee_Some [of g "clamp_float_ieee (gradientParam g x y) 0 1"]
      by auto
  qed
  show ?case
    using lt dc Suc.hyps(1) [OF n]
    by (simp add: pixelLoop.simps [of c grad m y x endX img] Let_def)
qed

lemma spanLoop_Some: "spanLoop c grad m w y nodes img \<noteq> None"
proof (induction nodes arbitrary: img rule: induct_list012)
  case (3 n0 n1 nodes)
  obtain i1 where "pixelLoop c grad m y (if to_int n0 < 0 then 0 else to_int n0)
                     (if to_int n1 > w then w else to_int n1) img = Some i1"
    using pixelLoop_Some by blast
  then show ?case
    using "3.IH"(1) [of img] "3.IH"(1) [of i1] by (simp add: Let_def)
qed simp_all

lemma scanLoop_Some: "scanLoop edges c grad m w y maxY img \<noteq> None"
proof (induction "nat (maxY - y)" arbitrary: y img)
  case 0
  then show ?case
    by (simp add: scanLoop_empty)
next
  case (Suc n)
  then have lt: "y < maxY" and n: "n = nat (maxY - (y + 1))"
    by auto
  obtain i1 where "spanLoop c grad m w y (sort (intersections edges y)) img = Some i1"
    using spanLoop_Some by blast
  then show ?case
    using lt Suc.hyps(1) [OF n]
    by (simp add: scanLoop.simps [of edges c grad m w y maxY img])
qed

lemma drawPolygon_Some: "drawPolygon img vs c grad m \<noteq> None"
proof -
  obtain st where "edgeLoop vs (height img) 0 ([], height img, 0) = Some st"
    using edgeLoop_Some by blast
  then show ?thesis
    using scanLoop_Some
    by (cases st) (simp add: drawPolygon_def Let_def split: prod.splits)
qed

text \<open>A linear gradient of length zero fills like the colour it returns for NaN.\<close>

lemma pixelLoop_zero_length:
  assumes "\<not> isRadial g" "p1 g = p2 g"
    and nc: "nc = (if stops g = [] then \<lparr>cf_r = 0, cf_g = 0, cf_b = 0, cf_a = 1\<rparr>
                   else color (last (stops g)))"
  shows "pixelLoop c (Some g) m y x endX img = pixelLoop nc None m y x endX img"
proof (induction "nat (endX - x)" arbitrary: x img)
  case 0
  then show ?case
    by (simp add: pixelLoop.simps [of _ _ m y x endX img])
next
  case (Suc n)
  then have lt: "x < endX" and n: "n = nat (endX - (x + 1))"
    by auto
  have "getColorAt_ieee g (clamp_float_ieee (gradientParam g x y) 0 1) = Some nc"
    using gradientParam_zero_length [OF assms(1,2)]
    by (simp add: nc clamp_float_ieee_def getColorAt_ieee_def)
  then show ?case
    using lt Suc.hyps(1) [OF n]
    by (simp add: pixelLoop.simps [of _ _ m y x endX img] Let_def)
qed

lemma spanLoop_zero_length:
  assumes "\<not> isRadial g" "p1 g = p2 g"
    and nc: "nc = (if stops g = [] then \<lparr>cf_r = 0, cf_g = 0, cf_b = 0, cf_a = 1\<rparr>
                   else color (last (stops g)))"
  shows "spanLoop c (Some g) m w y nodes img = spanLoop nc None m w y nodes img"
proof (induction nodes arbitrary: img rule: induct_list012)
  case (3 n0 n1 nodes)
  show ?case
    using "3.IH"(1) pixelLoop_zero_length [OF assms, of c m y]
    by (simp add: Let_def cong: Option.bind_cong)
qed simp_all

lemma scanLoop_zero_length:
  assumes "\<not> isRadial g" "p1 g = p2 g"
    and nc: "nc = (if stops g = [] then \<lparr>cf_r = 0, cf_g = 0, cf_b = 0, cf_a = 1\<rparr>
                   else color (last (stops g)))"
  shows "scanLoop edges c (Some g) m w y maxY img = scanLoop edges nc None m w y maxY img"
proof (induction "nat (maxY - y)" arbitrary: y img)
  case 0
  then show ?case
    by (simp add: scanLoop_empty)
next
  case (Suc n)
  then have lt: "y < maxY" and n: "n = nat (maxY - (y + 1))"
    by auto
  show ?case
    using lt Suc.hyps(1) [OF n] spanLoop_zero_length [OF assms, of c m w y]
    by (simp add: scanLoop.simps [of edges _ _ m w y maxY img] cong: Option.bind_cong)
qed

lemma drawPolygon_zero_length:
  assumes "\<not> isRadial g" "p1 g = p2 g"
  shows "drawPolygon img vs c (Some g) m =
         drawPolygon img vs
           (if stops g = [] then \<lparr>cf_r = 0, cf_g = 0, cf_b = 0, cf_a = 1\<rparr>
            else color (last (stops g))) None m"
  using scanLoop_zero_length [OF assms refl]
  by (simp add: drawPolygon_def Let_def split: prod.splits cong: Option.bind_cong)

text \<open>
  Claim C4, as the code has it. No division in the pixel loop fails: the loop runs
  to its end for every gradient. But the parameter of the gradient is divided
  without a test of the divisor. For a linear gradient with \<open>p1 = p2\<close> the quotient is
  \<open>0 / 0\<close>, NaN, at every pixel; \<^verbatim>\<open>clamp_float\<close> returns it and \<^verbatim>\<open>getColorAt\<close> gives
  the colour of the last stop, or opaque black without stops, so that the polygon is
  filled as with that colour and no gradient. For a radial gradient with radius 0
  the quotient is an infinity or NaN. In both cases \<open>drawPolygon\<close> returns an image.
\<close>

theorem drawPolygon_divisions:
  "pixelLoop c grad m y x endX img \<noteq> None \<and>
   (\<not> isRadial g \<and> p1 g = p2 g \<longrightarrow>
      gradientParam g x y = NaN \<and>
      drawPolygon img vs c (Some g) m \<noteq> None \<and>
      drawPolygon img vs c (Some g) m =
        drawPolygon img vs
          (if stops g = [] then \<lparr>cf_r = 0, cf_g = 0, cf_b = 0, cf_a = 1\<rparr>
           else color (last (stops g))) None m) \<and>
   (isRadial g \<and> radius g = 0 \<longrightarrow>
      gradientParam g x y \<in> {PlusInfinity, MinusInfinity, NaN} \<and>
      drawPolygon img vs c (Some g) m \<noteq> None)"
  using pixelLoop_Some drawPolygon_Some gradientParam_zero_length [of g x y]
    gradientParam_zero_radius [of g x y] drawPolygon_zero_length [of g img vs c m]
  by blast

theorem drawPolygon_divisions_witness:
  "(\<not> isRadial (two_stops\<lparr>p2 := p1 two_stops\<rparr>) \<and>
    p1 (two_stops\<lparr>p2 := p1 two_stops\<rparr>) = p2 (two_stops\<lparr>p2 := p1 two_stops\<rparr>)) \<and>
   gradientParam (two_stops\<lparr>p2 := p1 two_stops\<rparr>) 1 0 = NaN \<and>
   drawPolygon small corner red (Some (two_stops\<lparr>p2 := p1 two_stops\<rparr>))
     (mode_int BLEND_MULTIPLY) =
   drawPolygon small corner blue None (mode_int BLEND_MULTIPLY) \<and>
   (isRadial zero_radius \<and> radius zero_radius = 0) \<and>
   drawPolygon small corner red (Some zero_radius) (mode_int BLEND_NORMAL) \<noteq> None"
proof -
  have h: "\<not> isRadial (two_stops\<lparr>p2 := p1 two_stops\<rparr>) \<and>
           p1 (two_stops\<lparr>p2 := p1 two_stops\<rparr>) = p2 (two_stops\<lparr>p2 := p1 two_stops\<rparr>)"
    by (simp add: two_stops_def)
  have k: "isRadial zero_radius \<and> radius zero_radius = 0"
    by (simp add: zero_radius_def)
  have l: "(if stops (two_stops\<lparr>p2 := p1 two_stops\<rparr>) = []
            then \<lparr>cf_r = 0, cf_g = 0, cf_b = 0, cf_a = 1\<rparr>
            else color (last (stops (two_stops\<lparr>p2 := p1 two_stops\<rparr>)))) = blue"
    by (simp add: two_stops_def)
  show ?thesis
    using h k
      drawPolygon_divisions [where c = red and m = "mode_int BLEND_MULTIPLY" and img = small
        and g = "two_stops\<lparr>p2 := p1 two_stops\<rparr>" and x = 1 and y = 0 and vs = corner]
      drawPolygon_divisions [where c = red and m = "mode_int BLEND_NORMAL" and img = small
        and g = zero_radius and x = 1 and y = 0 and vs = corner]
    unfolding l by blast
qed

text \<open>
  The claim C4 as stated fails: neither division is guarded. On the 2 by 2 white
  image, with the triangle \<open>(0,0), (2,0), (0,2)\<close>, the pixels \<open>(0,0)\<close>, \<open>(1,0)\<close> and
  \<open>(0,1)\<close> are filled. A linear gradient with \<open>p1 = p2\<close> and no stops divides \<open>0\<close> by
  \<open>lenSq = 0\<close> at each of them; the parameter is NaN, the colour opaque black. A
  radial gradient with radius 0 and no stops divides the distance by 0: NaN at the
  centre \<open>(0,0)\<close>, plus infinity at \<open>(1,0)\<close>. Both calls write three black pixels and
  return.
\<close>

theorem drawPolygon_unguarded_counterexample:
  "\<not> isRadial zero_length \<and> p1 zero_length = p2 zero_length \<and>
   gradientParam zero_length 0 0 = NaN \<and>
   drawPolygon small corner red (Some zero_length) (mode_int BLEND_NORMAL) =
     Some (small\<lparr>pixels := (pixels small)
             ((0, 0) := black_pixel, (1, 0) := black_pixel, (0, 1) := black_pixel)\<rparr>) \<and>
   isRadial zero_radius \<and> radius zero_radius = 0 \<and>
   gradientParam zero_radius 0 0 = NaN \<and>
   gradientParam zero_radius 1 0 = PlusInfinity \<and>
   drawPolygon small corner red (Some zero_radius) (mode_int BLEND_NORMAL) =
     Some (small\<lparr>pixels := (pixels small)
             ((0, 0) := black_pixel, (1, 0) := black_pixel, (0, 1) := black_pixel)\<rparr>)"
  by (simp add: drawPolygon_def clampY_def edgeLoop.simps edgeStep_def fdiv_def Let_def
        scanLoop.simps pixelLoop.simps to_int_def small_def corner_def zero_length_def
        zero_radius_def gradientParam_def ieee_div_def clamp_float_ieee_def
        getColorAt_ieee_def getColorAt_def clamp_float_def Get_def Set_def blend_def
        fromRGBA_def toRGBA_def to_Byte_def white_def black_pixel_def)

end
